theory Spec2Isabelle
  imports Main
begin

section \<open>The YouTube comments API (\<open>api/index.py\<close>)\<close>

text \<open>
  The service has two pieces of logic: \<open>extract_video_id\<close>, which runs four regular
  expressions over its argument with \<open>re.search\<close>, and \<open>get_youtube_comments\<close>, which
  either returns a fixed record or makes one call to the YouTube client library and maps
  the items of the answer. Two route handlers call them in sequence.

  A Python \<open>str\<close> is modelled as a \<open>string\<close>: one \<open>char\<close> stands for one character of
  the \<open>str\<close>, so \<open>length\<close> is Python's \<open>len\<close>.
\<close>

subsection \<open>Regular expressions and \<open>re.search\<close>\<close>

text \<open>
  The fragment of Python's \<open>re\<close> syntax that the four patterns use. \<open>Cls\<close> is a
  character class given by its ranges (\<open>[0-9A-Za-z_-]\<close> has five, the last two of one
  character each), \<open>Rep n\<close> is \<open>{n}\<close>, \<open>Star\<close> the greedy \<open>*\<close>, \<open>Group\<close> the capturing
  group (the patterns have exactly one, group 1), \<open>Bol\<close> and \<open>Eol\<close> are \<open>^\<close> and \<open>$\<close>.
  A non-capturing group \<open>(?:...)\<close> only brackets, so it needs no constructor.
\<close>

datatype regex =
    Eps
  | Lit char
  | Dot
  | Cls "(char \<times> char) list"
  | Seq regex regex
  | Alt regex regex
  | Star regex
  | Rep nat regex
  | Group regex
  | Bol
  | Eol

text \<open>
  A state of the backtracking matcher: whether the position is the start of the subject
  (for \<open>^\<close>), the rest of the subject from the position on, and the text captured by
  group 1 so far.
\<close>

type_synonym mstate = "bool \<times> string \<times> string option"

definition newline :: char where
  "newline = CHR 0x0A"

definition in_range :: "char \<Rightarrow> char \<Rightarrow> char \<Rightarrow> bool" where
  "in_range lo hi c = ((of_char lo :: nat) \<le> of_char c \<and> (of_char c :: nat) \<le> of_char hi)"

definition in_class :: "(char \<times> char) list \<Rightarrow> char \<Rightarrow> bool" where
  "in_class rs c = list_ex (\<lambda>(lo, hi). in_range lo hi c) rs"

fun rweight :: "regex \<Rightarrow> nat" where
  "rweight (Seq p q) = Suc (rweight p + rweight q)"
| "rweight (Alt p q) = Suc (rweight p + rweight q)"
| "rweight (Star p) = Suc (rweight p)"
| "rweight (Rep n p) = Suc (rweight p + n)"
| "rweight (Group p) = Suc (rweight p)"
| "rweight _ = 0"

text \<open>
  \<open>rmatch r st\<close> lists the states in which a match of \<open>r\<close> begun in \<open>st\<close> can end, in the
  order in which the backtracking engine tries them: the left branch of \<open>|\<close> before the
  right one, more iterations of \<open>*\<close> before fewer. \<open>.\<close> matches every character but the
  newline (no \<open>DOTALL\<close> flag); \<open>$\<close> matches at the end of the subject and just before a
  newline that ends it (no \<open>MULTILINE\<close> flag); \<open>^\<close> matches at the start of the subject.
\<close>

function rmatch :: "regex \<Rightarrow> mstate \<Rightarrow> mstate list" where
  "rmatch Eps st = [st]"
| "rmatch (Lit c) (b, s, g) =
     (case s of [] \<Rightarrow> [] | x # xs \<Rightarrow> if x = c then [(False, xs, g)] else [])"
| "rmatch Dot (b, s, g) =
     (case s of [] \<Rightarrow> [] | x # xs \<Rightarrow> if x \<noteq> newline then [(False, xs, g)] else [])"
| "rmatch (Cls rs) (b, s, g) =
     (case s of [] \<Rightarrow> [] | x # xs \<Rightarrow> if in_class rs x then [(False, xs, g)] else [])"
| "rmatch (Seq p q) st = concat (map (rmatch q) (rmatch p st))"
| "rmatch (Alt p q) st = rmatch p st @ rmatch q st"
| "rmatch (Star p) (b, s, g) =
     concat (map (\<lambda>(b', s', g'). if length s' < length s then rmatch (Star p) (b', s', g') else [])
                 (rmatch p (b, s, g))) @ [(b, s, g)]"
| "rmatch (Rep n p) st =
     (if n = 0 then [st] else concat (map (rmatch (Rep (n - 1) p)) (rmatch p st)))"
| "rmatch (Group p) (b, s, g) =
     map (\<lambda>(b', s', _). (b', s', Some (take (length s - length s') s))) (rmatch p (b, s, g))"
| "rmatch Bol (b, s, g) = (if b then [(b, s, g)] else [])"
| "rmatch Eol (b, s, g) = (if s = [] \<or> s = [newline] then [(b, s, g)] else [])"
  by pat_completeness auto
termination
  by (relation "measures [\<lambda>(r, st). rweight r, \<lambda>(r, b, s, g). length s]") auto

text \<open>
  A match object, as far as the program reads it: it is truthy, and \<open>group(1)\<close> is the
  text of group 1, or \<open>None\<close> when the group took no part in the match.
\<close>

datatype match = Match (group1: "string option")

text \<open>
  The match the engine finds first at one start position, and \<open>re.search\<close>: it tries
  the start positions from left to right, the end of the subject included, and returns
  the match of the first position that has one.
\<close>

definition match_at :: "regex \<Rightarrow> bool \<Rightarrow> string \<Rightarrow> match option" where
  "match_at r b s =
     (case rmatch r (b, s, None) of
        [] \<Rightarrow> None
      | (_, _, g) # _ \<Rightarrow> Some (Match g))"

fun search_from :: "regex \<Rightarrow> bool \<Rightarrow> string \<Rightarrow> match option" where
  "search_from r b [] = match_at r b []"
| "search_from r b (c # cs) =
     (case match_at r b (c # cs) of
        Some m \<Rightarrow> Some m
      | None \<Rightarrow> search_from r False cs)"

definition re_search :: "regex \<Rightarrow> string \<Rightarrow> match option" where
  "re_search r s = search_from r True s"

subsection \<open>\<open>extract_video_id\<close>\<close>

fun lits :: "string \<Rightarrow> regex" where
  "lits [] = Eps"
| "lits [c] = Lit c"
| "lits (c # cs) = Seq (Lit c) (lits cs)"

definition idclass :: regex where
  "idclass = Cls [(CHR ''0'', CHR ''9''), (CHR ''A'', CHR ''Z''), (CHR ''a'', CHR ''z''),
                  (CHR ''_'', CHR ''_''), (CHR ''-'', CHR ''-'')]"

text \<open>
  The list \<open>patterns\<close> of the source, in its order:
  \<^verbatim>\<open>(?:v=|\/)([0-9A-Za-z_-]{11}).*\<close>,
  \<^verbatim>\<open>(?:embed\/)([0-9A-Za-z_-]{11})\<close>,
  \<^verbatim>\<open>(?:watch\?v=)([0-9A-Za-z_-]{11})\<close> and
  \<^verbatim>\<open>^([0-9A-Za-z_-]{11})$\<close>.
\<close>

definition rule1 :: regex where
  "rule1 = Seq (Alt (lits ''v='') (lits ''/'')) (Seq (Group (Rep 11 idclass)) (Star Dot))"

definition rule2 :: regex where
  "rule2 = Seq (lits ''embed/'') (Group (Rep 11 idclass))"

definition rule3 :: regex where
  "rule3 = Seq (lits ''watch?v='') (Group (Rep 11 idclass))"

definition rule4 :: regex where
  "rule4 = Seq Bol (Seq (Group (Rep 11 idclass)) Eol)"

definition patterns :: "regex list" where
  "patterns = [rule1, rule2, rule3, rule4]"

text \<open>The loop \<open>for pattern in patterns\<close>: the first pattern that matches decides.\<close>

fun extract_video_id_loop :: "regex list \<Rightarrow> string \<Rightarrow> string option" where
  "extract_video_id_loop [] url = None"
| "extract_video_id_loop (pattern # rest) url =
     (case re_search pattern url of
        Some m \<Rightarrow> group1 m
      | None \<Rightarrow> extract_video_id_loop rest url)"

definition extract_video_id :: "string \<Rightarrow> string option" where
  "extract_video_id url = extract_video_id_loop patterns url"

subsection \<open>Notions of the specification\<close>

text \<open>
  The alphabet of a video ID and an ID token, and what the specification calls a
  qualifying separator: a \<open>/\<close> or a \<open>v=\<close> with an ID token right after it
  (\<open>has_qualifying_separator\<close>). These follow the words of the specification. The
  functions \<open>token_after\<close>, \<open>first_token\<close> and \<open>bare_id\<close> say in terms of strings what
  the patterns find; the lemmas below prove that they do.
\<close>

definition idchar :: "char \<Rightarrow> bool" where
  "idchar c =
     (in_range CHR ''0'' CHR ''9'' c \<or> in_range CHR ''A'' CHR ''Z'' c \<or> in_range CHR ''a'' CHR ''z'' c
      \<or> c = CHR ''_'' \<or> c = CHR ''-'')"

definition id_token :: "string \<Rightarrow> bool" where
  "id_token x = (length x = 11 \<and> list_all idchar x)"

definition starts_with_token :: "string \<Rightarrow> string \<Rightarrow> bool" where
  "starts_with_token sep s =
     (take (length sep) s = sep \<and> id_token (take 11 (drop (length sep) s)))"

text \<open>
  The token after the first of the separators \<open>seps\<close> that stands at the head of \<open>s\<close> with
  a token behind it, and the token after the leftmost such separator anywhere in \<open>s\<close>.
\<close>

fun token_after :: "string list \<Rightarrow> string \<Rightarrow> string option" where
  "token_after [] s = None"
| "token_after (sep # seps) s =
     (if starts_with_token sep s then Some (take 11 (drop (length sep) s))
      else token_after seps s)"

fun first_token :: "string list \<Rightarrow> string \<Rightarrow> string option" where
  "first_token seps [] = None"
| "first_token seps (c # cs) =
     (case token_after seps (c # cs) of
        Some x \<Rightarrow> Some x
      | None \<Rightarrow> first_token seps cs)"

text \<open>A bare ID: a token that is the whole string, or all of it but a final newline.\<close>

definition bare_id :: "string \<Rightarrow> string option" where
  "bare_id s =
     (if id_token (take 11 s) \<and> (drop 11 s = [] \<or> drop 11 s = [newline]) then Some (take 11 s)
      else None)"

fun has_qualifying_separator :: "string \<Rightarrow> bool" where
  "has_qualifying_separator [] = False"
| "has_qualifying_separator (c # cs) =
     (starts_with_token ''v='' (c # cs) \<or> starts_with_token ''/'' (c # cs)
      \<or> has_qualifying_separator cs)"

subsection \<open>Python values, exceptions and the client library\<close>

text \<open>
  The values of a decoded JSON answer and of the dictionaries the program builds. A
  dictionary is the list of its items in insertion order. Numbers are integers.
\<close>

datatype pyval =
    PyNone
  | PyBool bool
  | PyInt int
  | PyStr string
  | PyList "pyval list"
  | PyDict "(string \<times> pyval) list"

text \<open>
  The exceptions that can reach the \<open>except Exception\<close> clause: whatever the client
  library raises (\<open>ClientError\<close>, with the text \<open>str\<close> gives for it), and those the
  interpreter raises while the answer is taken apart. Their texts are those of
  CPython 3.11; the program only embeds them in its message.
\<close>

datatype exn =
    ClientError string
  | KeyError string
  | TypeError string
  | AttributeError string

definition quoted :: "string \<Rightarrow> string" where
  "quoted s = CHR 0x27 # s @ [CHR 0x27]"

fun str_exn :: "exn \<Rightarrow> string" where
  "str_exn (ClientError t) = t"
| "str_exn (KeyError k) = quoted k"
| "str_exn (TypeError t) = t"
| "str_exn (AttributeError t) = t"

fun type_name :: "pyval \<Rightarrow> string" where
  "type_name PyNone = ''NoneType''"
| "type_name (PyBool _) = ''bool''"
| "type_name (PyInt _) = ''int''"
| "type_name (PyStr _) = ''str''"
| "type_name (PyList _) = ''list''"
| "type_name (PyDict _) = ''dict''"

text \<open>\<open>v[k]\<close> for a string key \<open>k\<close>.\<close>

fun getitem :: "pyval \<Rightarrow> string \<Rightarrow> exn + pyval" where
  "getitem (PyDict kvs) k = (case map_of kvs k of Some x \<Rightarrow> Inr x | None \<Rightarrow> Inl (KeyError k))"
| "getitem (PyList _) k = Inl (TypeError ''list indices must be integers or slices, not str'')"
| "getitem (PyStr _) k = Inl (TypeError (''string indices must be integers, not '' @ quoted ''str''))"
| "getitem v k = Inl (TypeError (quoted (type_name v) @ '' object is not subscriptable''))"

text \<open>\<open>v.get(k, d)\<close>.\<close>

fun dict_get :: "pyval \<Rightarrow> string \<Rightarrow> pyval \<Rightarrow> exn + pyval" where
  "dict_get (PyDict kvs) k d = Inr (case map_of kvs k of Some x \<Rightarrow> x | None \<Rightarrow> d)"
| "dict_get v k d =
     Inl (AttributeError (quoted (type_name v) @ '' object has no attribute '' @ quoted ''get''))"

text \<open>The elements \<open>for item in v\<close> runs over.\<close>

fun iterate :: "pyval \<Rightarrow> exn + pyval list" where
  "iterate (PyList xs) = Inr xs"
| "iterate (PyDict kvs) = Inr (map (\<lambda>(k, _). PyStr k) kvs)"
| "iterate (PyStr s) = Inr (map (\<lambda>c. PyStr [c]) s)"
| "iterate v = Inl (TypeError (quoted (type_name v) @ '' object is not iterable''))"

definition bind_exn :: "exn + 'a \<Rightarrow> ('a \<Rightarrow> exn + 'b) \<Rightarrow> exn + 'b" where
  "bind_exn x f = (case x of Inl e \<Rightarrow> Inl e | Inr v \<Rightarrow> f v)"

text \<open>
  The keyword arguments of \<open>commentThreads().list\<close>, with the key the client was built
  with. The client library is a parameter \<open>upstream\<close> of the model: for a request it
  says what \<open>build\<close>, \<open>list\<close> and \<open>execute\<close> together raise or return.
\<close>

record api_request =
  developerKey :: string
  part :: string
  videoId :: string
  maxResults :: int
  order :: string
  textFormat :: string

type_synonym client = "api_request \<Rightarrow> exn + pyval"

datatype http_exception = HTTPException (status_code: int) (detail: string)

subsection \<open>\<open>get_youtube_comments\<close>\<close>

definition demo_comment :: pyval where
  "demo_comment =
     PyDict [(''author'', PyStr ''Demo User''),
             (''text'', PyStr ''This is a demo comment. Set YOUTUBE_API_KEY environment variable to fetch real comments.''),
             (''likes'', PyInt 0),
             (''published_at'', PyStr ''2024-01-01T00:00:00Z''),
             (''reply_count'', PyInt 0)]"

text \<open>The body of the loop over the items: the record \<open>comments.append\<close> receives.\<close>

definition comment_of_item :: "pyval \<Rightarrow> exn + pyval" where
  "comment_of_item item =
     bind_exn (getitem item ''snippet'') (\<lambda>s.
     bind_exn (getitem s ''topLevelComment'') (\<lambda>t.
     bind_exn (getitem t ''snippet'') (\<lambda>comment.
     bind_exn (getitem comment ''authorDisplayName'') (\<lambda>author.
     bind_exn (getitem comment ''textDisplay'') (\<lambda>txt.
     bind_exn (getitem comment ''likeCount'') (\<lambda>likes.
     bind_exn (getitem comment ''publishedAt'') (\<lambda>published_at.
     bind_exn (getitem item ''snippet'') (\<lambda>s'.
     bind_exn (getitem s' ''totalReplyCount'') (\<lambda>reply_count.
     Inr (PyDict [(''author'', author), (''text'', txt), (''likes'', likes),
                  (''published_at'', published_at), (''reply_count'', reply_count)]))))))))))"

text \<open>The loop: \<open>comments\<close> is the list built so far; an exception ends it.\<close>

fun append_comments :: "pyval list \<Rightarrow> pyval list \<Rightarrow> exn + pyval list" where
  "append_comments [] comments = Inr comments"
| "append_comments (item # items) comments =
     (case comment_of_item item of
        Inl e \<Rightarrow> Inl e
      | Inr c \<Rightarrow> append_comments items (comments @ [c]))"

definition list_request :: "string \<Rightarrow> string \<Rightarrow> int \<Rightarrow> api_request" where
  "list_request key video_id max_results =
     \<lparr>developerKey = key, part = ''snippet'', videoId = video_id,
      maxResults = min max_results 100, order = ''relevance'', textFormat = ''plainText''\<rparr>"

text \<open>The items the loop runs over: \<open>response.get('items', [])\<close>, iterated.\<close>

definition response_items :: "pyval \<Rightarrow> exn + pyval list" where
  "response_items response = bind_exn (dict_get response ''items'' (PyList [])) iterate"

text \<open>The body of the \<open>try\<close>.\<close>

definition fetch_comments :: "client \<Rightarrow> api_request \<Rightarrow> exn + pyval list" where
  "fetch_comments upstream request =
     bind_exn (upstream request) (\<lambda>response.
     bind_exn (response_items response) (\<lambda>items.
     append_comments items []))"

text \<open>
  \<open>get_youtube_comments\<close> takes the module's \<open>YOUTUBE_API_KEY\<close> and the client library
  as arguments, and returns, with its result, the requests it has sent to the client
  library.
\<close>

definition get_youtube_comments ::
  "string \<Rightarrow> client \<Rightarrow> string \<Rightarrow> int \<Rightarrow> api_request list \<times> (http_exception + pyval list)" where
  "get_youtube_comments YOUTUBE_API_KEY upstream video_id max_results =
     (if YOUTUBE_API_KEY = [] then ([], Inr [demo_comment])
      else
        let request = list_request YOUTUBE_API_KEY video_id max_results in
        (case fetch_comments upstream request of
           Inr comments \<Rightarrow> ([request], Inr comments)
         | Inl e \<Rightarrow>
             ([request], Inl (HTTPException 500 (''Error fetching comments: '' @ str_exn e)))))"

subsection \<open>The route handlers\<close>

definition comments_body :: "string \<Rightarrow> pyval list \<Rightarrow> pyval" where
  "comments_body video_id comments =
     PyDict [(''video_id'', PyStr video_id),
             (''comment_count'', PyInt (int (length comments))),
             (''comments'', PyList comments)]"

definition respond ::
  "string \<Rightarrow> api_request list \<times> (http_exception + pyval list)
     \<Rightarrow> api_request list \<times> (http_exception + pyval)" where
  "respond video_id r =
     (case r of
        (sent, Inl e) \<Rightarrow> (sent, Inl e)
      | (sent, Inr comments) \<Rightarrow> (sent, Inr (comments_body video_id comments)))"

text \<open>
  \<open>GET /comments\<close>. \<open>not video_id\<close> holds of \<open>None\<close> and of the empty string. The
  framework checks \<open>max_results\<close> against \<open>ge=1, le=100\<close> before it calls the handler;
  the handler itself takes any integer.
\<close>

definition get_comments ::
  "string \<Rightarrow> client \<Rightarrow> string \<Rightarrow> int \<Rightarrow> api_request list \<times> (http_exception + pyval)" where
  "get_comments YOUTUBE_API_KEY upstream url max_results =
     (case extract_video_id url of
        None \<Rightarrow>
          ([], Inl (HTTPException 400
             ''Invalid YouTube URL or video ID. Please provide a valid YouTube video URL.''))
      | Some video_id \<Rightarrow>
          if video_id = [] then
            ([], Inl (HTTPException 400
               ''Invalid YouTube URL or video ID. Please provide a valid YouTube video URL.''))
          else
            respond video_id
              (get_youtube_comments YOUTUBE_API_KEY upstream video_id max_results))"

text \<open>\<open>GET /video/{video_id}/comments\<close>.\<close>

definition get_comments_by_id ::
  "string \<Rightarrow> client \<Rightarrow> string \<Rightarrow> int \<Rightarrow> api_request list \<times> (http_exception + pyval)" where
  "get_comments_by_id YOUTUBE_API_KEY upstream video_id max_results =
     (if length video_id \<noteq> 11 then
        ([], Inl (HTTPException 400
           ''Invalid video ID format. YouTube video IDs are 11 characters long.''))
      else
        respond video_id
          (get_youtube_comments YOUTUBE_API_KEY upstream video_id max_results))"

subsection \<open>Two clients for the examples\<close>

text \<open>
  A client library that raises on every request, and one whose answer has a well-formed
  item followed by an item without a \<open>snippet\<close>.
\<close>

definition quota_exceeded :: client where
  "quota_exceeded request = Inl (ClientError ''quotaExceeded'')"

definition thread_item :: pyval where
  "thread_item =
     PyDict [(''snippet'',
        PyDict [(''topLevelComment'',
                   PyDict [(''snippet'',
                      PyDict [(''authorDisplayName'', PyStr ''Ann''),
                              (''textDisplay'', PyStr ''Nice''),
                              (''likeCount'', PyInt 3),
                              (''publishedAt'', PyStr ''2024-05-01T12:00:00Z'')])]),
                (''totalReplyCount'', PyInt 2)])]"

definition second_item_malformed :: client where
  "second_item_malformed request = Inr (PyDict [(''items'', PyList [thread_item, PyDict []])])"

section \<open>The regular expressions of the resolver\<close>

subsection \<open>The matcher on the constructs of the patterns\<close>

lemma in_range_same: "in_range x x c \<longleftrightarrow> c = x"
  by (auto simp: in_range_def)

lemma in_class_idclass:
  "in_class [(CHR ''0'', CHR ''9''), (CHR ''A'', CHR ''Z''), (CHR ''a'', CHR ''z''),
             (CHR ''_'', CHR ''_''), (CHR ''-'', CHR ''-'')] c = idchar c"
  by (simp add: in_class_def idchar_def in_range_same)

lemma idchar_not_sep:
  "idchar c \<Longrightarrow> c \<noteq> CHR ''/'' \<and> c \<noteq> CHR ''='' \<and> c \<noteq> CHR ''?'' \<and> c \<noteq> newline"
  by (auto simp: idchar_def in_range_def newline_def)

lemma rmatch_Rep_Cls:
  "rmatch (Rep n (Cls rs)) (b, s, g) =
     (if n = 0 then [(b, s, g)]
      else if n \<le> length s \<and> list_all (in_class rs) (take n s) then [(False, drop n s, g)]
      else [])"
proof (induction n arbitrary: b s)
  case 0
  show ?case by simp
next
  case (Suc n)
  show ?case
  proof (cases s)
    case Nil
    then show ?thesis by simp
  next
    case (Cons x xs)
    then show ?thesis using Suc [of False xs] by (cases "n = 0") auto
  qed
qed

lemma rmatch_token:
  "rmatch (Group (Rep 11 idclass)) (b, s, g) =
     (if id_token (take 11 s) then [(False, drop 11 s, Some (take 11 s))] else [])"
proof -
  have "list_all (in_class [(CHR ''0'', CHR ''9''), (CHR ''A'', CHR ''Z''), (CHR ''a'', CHR ''z''),
             (CHR ''_'', CHR ''_''), (CHR ''-'', CHR ''-'')]) xs = list_all idchar xs" for xs
    by (induction xs) (simp_all add: in_class_idclass)
  then show ?thesis
    unfolding idclass_def
    by (simp add: rmatch_Rep_Cls id_token_def min_def del: rmatch.simps(8))
qed

lemma rmatch_lits:
  "l \<noteq> [] \<Longrightarrow> rmatch (lits l) (b, s, g) =
     (if take (length l) s = l then [(False, drop (length l) s, g)] else [])"
proof (induction l arbitrary: b s rule: lits.induct)
  case 1
  then show ?case by simp
next
  case (2 c)
  show ?case by (cases s) auto
next
  case (3 c d ds)
  show ?case using "3.IH" [of False "tl s"] by (cases s) auto
qed

lemma rmatch_Star_Dot_nonempty: "rmatch (Star Dot) st \<noteq> []"
  by (cases st) simp

lemma rmatch_Star_Dot_hd: "\<exists>b' s'. hd (rmatch (Star Dot) (b, s, g)) = (b', s', g)"
proof (induction s arbitrary: b)
  case Nil
  show ?case by simp
next
  case (Cons x xs)
  show ?case using Cons [of False] rmatch_Star_Dot_nonempty [of "(False, xs, g)"]
    by (simp del: rmatch.simps(7) add: rmatch.simps(7) [of Dot b "x # xs" g])
qed

subsection \<open>One start position, and the search\<close>

lemma rmatch_Star_Dot_first:
  "\<exists>b' s' rest. rmatch (Star Dot) (b, s, g) = (b', s', g) # rest"
proof -
  obtain b' s' where h: "hd (rmatch (Star Dot) (b, s, g)) = (b', s', g)"
    using rmatch_Star_Dot_hd by blast
  have "rmatch (Star Dot) (b, s, g) \<noteq> []" by (rule rmatch_Star_Dot_nonempty)
  then obtain y ys where "rmatch (Star Dot) (b, s, g) = y # ys"
    by (cases "rmatch (Star Dot) (b, s, g)") auto
  with h show ?thesis by auto
qed

lemma rmatch_token_star_none:
  "\<not> id_token (take 11 s) \<Longrightarrow> rmatch (Seq (Group (Rep 11 idclass)) (Star Dot)) (b, s, g) = []"
  by (simp add: rmatch_token del: rmatch.simps(7,9))

lemma rmatch_token_star_first:
  assumes "id_token (take 11 s)"
  shows "\<exists>b' s' rest. rmatch (Seq (Group (Rep 11 idclass)) (Star Dot)) (b, s, g)
           = (b', s', Some (take 11 s)) # rest"
  using assms rmatch_Star_Dot_first [of False "drop 11 s" "Some (take 11 s)"]
  by (simp add: rmatch_token del: rmatch.simps(7,9))

lemma token_after_Nil: "token_after seps [] = None"
  by (induction seps) (simp_all add: starts_with_token_def id_token_def)

lemma rmatch_Seq_Alt:
  "rmatch (Seq (Alt p1 p2) q) st = rmatch (Seq p1 q) st @ rmatch (Seq p2 q) st"
  by simp

lemma rmatch_Seq_lits:
  "sep \<noteq> [] \<Longrightarrow> rmatch (Seq (lits sep) q) (b, s, g) =
     (if take (length sep) s = sep then rmatch q (False, drop (length sep) s, g) else [])"
  by (simp add: rmatch_lits del: lits.simps)

lemma match_at_sep_token_star:
  assumes "sep \<noteq> []"
  shows "(case rmatch (Seq (lits sep) (Seq (Group (Rep 11 idclass)) (Star Dot))) (b, s, None) of
            [] \<Rightarrow> None | (_, _, g) # _ \<Rightarrow> Some (Match g))
         = map_option (\<lambda>x. Match (Some x)) (token_after [sep] s)"
proof (cases "starts_with_token sep s")
  case True
  then have t: "id_token (take 11 (drop (length sep) s))" and p: "take (length sep) s = sep"
    by (simp_all add: starts_with_token_def)
  obtain b' s' rest where
    "rmatch (Seq (Group (Rep 11 idclass)) (Star Dot)) (False, drop (length sep) s, None)
       = (b', s', Some (take 11 (drop (length sep) s))) # rest"
    using rmatch_token_star_first [OF t] by blast
  with True p show ?thesis
    by (simp only: rmatch_Seq_lits [OF assms] token_after.simps) simp
next
  case False
  then have "take (length sep) s = sep \<Longrightarrow> \<not> id_token (take 11 (drop (length sep) s))"
    by (simp add: starts_with_token_def)
  with False show ?thesis
    by (simp only: rmatch_Seq_lits [OF assms] token_after.simps)
       (simp add: rmatch_token_star_none del: rmatch.simps)
qed

lemma match_at_rule1:
  "match_at rule1 b s = map_option (\<lambda>x. Match (Some x)) (token_after [''v='', ''/''] s)"
proof -
  let ?q = "Seq (Group (Rep 11 idclass)) (Star Dot)"
  let ?f = "\<lambda>l. case l of [] \<Rightarrow> None | (_, _, g) # _ \<Rightarrow> Some (Match g)"
  define A where "A = rmatch (Seq (lits ''v='') ?q) (b, s, None)"
  define B where "B = rmatch (Seq (lits ''/'') ?q) (b, s, None)"
  have v: "?f A = map_option (\<lambda>x. Match (Some x)) (token_after [''v=''] s)"
    unfolding A_def by (rule match_at_sep_token_star) simp
  have sl: "?f B = map_option (\<lambda>x. Match (Some x)) (token_after [''/''] s)"
    unfolding B_def by (rule match_at_sep_token_star) simp
  have "match_at rule1 b s = ?f (A @ B)"
    unfolding match_at_def rule1_def A_def B_def by (simp only: rmatch_Seq_Alt)
  also have "\<dots> = (case ?f A of Some m \<Rightarrow> Some m | None \<Rightarrow> ?f B)"
    by (cases A) (auto split: prod.splits)
  also have "\<dots> = map_option (\<lambda>x. Match (Some x)) (token_after [''v='', ''/''] s)"
    unfolding v sl by simp
  finally show ?thesis .
qed

lemma match_at_lits_token:
  assumes "sep \<noteq> []"
  shows "match_at (Seq (lits sep) (Group (Rep 11 idclass))) b s
           = map_option (\<lambda>x. Match (Some x)) (token_after [sep] s)"
  using assms
  by (simp add: match_at_def rmatch_Seq_lits rmatch_token starts_with_token_def del: rmatch.simps lits.simps)

lemma match_at_rule4:
  "match_at rule4 b s = (if b then map_option (\<lambda>x. Match (Some x)) (bare_id s) else None)"
  unfolding rule4_def match_at_def
  by (simp add: rmatch_token bare_id_def del: rmatch.simps(9))

lemma search_from_tokens:
  assumes "\<And>b s. match_at r b s = map_option (\<lambda>x. Match (Some x)) (token_after seps s)"
  shows "search_from r b s = map_option (\<lambda>x. Match (Some x)) (first_token seps s)"
proof (induction s arbitrary: b)
  case Nil
  show ?case by (simp add: assms token_after_Nil)
next
  case (Cons c cs)
  show ?case by (cases "token_after seps (c # cs)") (simp_all add: assms Cons)
qed

lemma search_from_rule4_False: "search_from rule4 False s = None"
  by (induction s) (simp_all add: match_at_rule4)

lemma re_search_rule1:
  "re_search rule1 s = map_option (\<lambda>x. Match (Some x)) (first_token [''v='', ''/''] s)"
  unfolding re_search_def by (rule search_from_tokens) (rule match_at_rule1)

lemma re_search_rule2:
  "re_search rule2 s = map_option (\<lambda>x. Match (Some x)) (first_token [''embed/''] s)"
  unfolding re_search_def rule2_def by (rule search_from_tokens) (rule match_at_lits_token, simp)

lemma re_search_rule3:
  "re_search rule3 s = map_option (\<lambda>x. Match (Some x)) (first_token [''watch?v=''] s)"
  unfolding re_search_def rule3_def by (rule search_from_tokens) (rule match_at_lits_token, simp)

lemma re_search_rule4:
  "re_search rule4 s = map_option (\<lambda>x. Match (Some x)) (bare_id s)"
  unfolding re_search_def
  by (cases s) (simp_all add: match_at_rule4 search_from_rule4_False split: option.splits)

subsection \<open>The patterns in terms of strings\<close>

lemma starts_with_token_iff:
  "starts_with_token sep s \<longleftrightarrow> (\<exists>x rest. s = sep @ x @ rest \<and> id_token x)"
proof
  assume a: "starts_with_token sep s"
  have "s = take (length sep) s @ take 11 (drop (length sep) s) @ drop 11 (drop (length sep) s)"
    by (simp only: append_take_drop_id)
  with a show "\<exists>x rest. s = sep @ x @ rest \<and> id_token x"
    unfolding starts_with_token_def by metis
next
  assume "\<exists>x rest. s = sep @ x @ rest \<and> id_token x"
  then show "starts_with_token sep s"
    by (auto simp: starts_with_token_def id_token_def)
qed

lemma token_after_Some:
  "token_after seps s = Some x \<Longrightarrow>
     \<exists>sep rest. sep \<in> set seps \<and> s = sep @ x @ rest \<and> id_token x"
proof (induction seps)
  case Nil
  then show ?case by simp
next
  case (Cons sep seps)
  show ?case
  proof (cases "starts_with_token sep s")
    case True
    with Cons.prems have x: "x = take 11 (drop (length sep) s)" by simp
    from True have "take (length sep) s = sep" "id_token x"
      by (simp_all add: starts_with_token_def x)
    moreover have "s = take (length sep) s @ x @ drop 11 (drop (length sep) s)"
      by (simp only: x append_take_drop_id)
    ultimately show ?thesis by (metis list.set_intros(1))
  next
    case False
    with Cons show ?thesis by (metis list.set_intros(2) token_after.simps(2))
  qed
qed

lemma token_after_None_iff:
  "token_after seps s = None \<longleftrightarrow> (\<forall>sep \<in> set seps. \<not> starts_with_token sep s)"
  by (induction seps) auto

lemma first_token_Some:
  "first_token seps s = Some x \<Longrightarrow>
     \<exists>pre sep rest. sep \<in> set seps \<and> s = pre @ sep @ x @ rest \<and> id_token x"
proof (induction s)
  case Nil
  then show ?case by simp
next
  case (Cons c cs)
  show ?case
  proof (cases "token_after seps (c # cs)")
    case None
    with Cons obtain pre sep rest where "sep \<in> set seps" "cs = pre @ sep @ x @ rest" "id_token x"
      by auto
    then have "sep \<in> set seps \<and> c # cs = (c # pre) @ sep @ x @ rest \<and> id_token x" by simp
    then show ?thesis by blast
  next
    case (Some y)
    with Cons.prems have "token_after seps (c # cs) = Some x" by simp
    from token_after_Some [OF this] show ?thesis by (metis append_Nil)
  qed
qed

lemma first_token_None_iff:
  "first_token seps s = None \<longleftrightarrow>
     \<not> (\<exists>pre sep x rest. sep \<in> set seps \<and> s = pre @ sep @ x @ rest \<and> id_token x)"
proof (induction s)
  case Nil
  show ?case by (auto simp: id_token_def)
next
  case (Cons c cs)
  show ?case
  proof
    assume a: "first_token seps (c # cs) = None"
    then have t: "token_after seps (c # cs) = None" and r: "first_token seps cs = None"
      by (auto split: option.splits)
    show "\<not> (\<exists>pre sep x rest. sep \<in> set seps \<and> c # cs = pre @ sep @ x @ rest \<and> id_token x)"
    proof
      assume "\<exists>pre sep x rest. sep \<in> set seps \<and> c # cs = pre @ sep @ x @ rest \<and> id_token x"
      then obtain pre sep x rest where h: "sep \<in> set seps" "c # cs = pre @ sep @ x @ rest" "id_token x"
        by blast
      show False
      proof (cases pre)
        case Nil
        with h have "starts_with_token sep (c # cs)" by (auto simp: starts_with_token_iff)
        with t h(1) show False by (simp add: token_after_None_iff)
      next
        case (Cons d ds)
        with h have "cs = ds @ sep @ x @ rest" by simp
        with r h Cons.IH show False by blast
      qed
    qed
  next
    assume n: "\<not> (\<exists>pre sep x rest. sep \<in> set seps \<and> c # cs = pre @ sep @ x @ rest \<and> id_token x)"
    have "token_after seps (c # cs) = None"
    proof (rule ccontr)
      assume "token_after seps (c # cs) \<noteq> None"
      then obtain y where "token_after seps (c # cs) = Some y" by auto
      from token_after_Some [OF this] n show False by (metis append_Nil)
    qed
    moreover have "first_token seps cs = None"
    proof -
      have "\<not> (\<exists>pre sep x rest. sep \<in> set seps \<and> cs = pre @ sep @ x @ rest \<and> id_token x)"
      proof
        assume "\<exists>pre sep x rest. sep \<in> set seps \<and> cs = pre @ sep @ x @ rest \<and> id_token x"
        then obtain pre sep x rest where "sep \<in> set seps" "cs = pre @ sep @ x @ rest" "id_token x"
          by blast
        then have "sep \<in> set seps \<and> c # cs = (c # pre) @ sep @ x @ rest \<and> id_token x" by simp
        with n show False by blast
      qed
      with Cons.IH show ?thesis by simp
    qed
    ultimately show "first_token seps (c # cs) = None" by simp
  qed
qed

lemma has_qualifying_separator_iff:
  "has_qualifying_separator s \<longleftrightarrow> first_token [''v='', ''/''] s \<noteq> None"
  by (induction s) (auto split: option.splits if_splits)

lemma rule1_subsumes:
  assumes "first_token [''v='', ''/''] s = None"
  shows "first_token [''embed/''] s = None" and "first_token [''watch?v=''] s = None"
proof -
  have n: "\<not> (\<exists>pre sep x rest. sep \<in> set [''v='', ''/''] \<and> s = pre @ sep @ x @ rest \<and> id_token x)"
    using assms first_token_None_iff [of "[''v='', ''/'']" s] by blast
  have m1: "''/'' \<in> set [''v='', ''/'']" and m2: "''v='' \<in> set [''v='', ''/'']" by simp_all
  show "first_token [''embed/''] s = None"
  proof (rule ccontr)
    assume "first_token [''embed/''] s \<noteq> None"
    then obtain pre sep x rest where h: "sep \<in> set [''embed/'']" "s = pre @ sep @ x @ rest" "id_token x"
      unfolding first_token_None_iff by blast
    then have "s = (pre @ ''embed'') @ ''/'' @ x @ rest" by simp
    with m1 h(3) n show False by blast
  qed
  show "first_token [''watch?v=''] s = None"
  proof (rule ccontr)
    assume "first_token [''watch?v=''] s \<noteq> None"
    then obtain pre sep x rest where h: "sep \<in> set [''watch?v='']" "s = pre @ sep @ x @ rest" "id_token x"
      unfolding first_token_None_iff by blast
    then have "s = (pre @ ''watch?'') @ ''v='' @ x @ rest" by simp
    with m2 h(3) n show False by blast
  qed
qed

lemma extract_video_id_rules:
  "extract_video_id s =
     (case first_token [''v='', ''/''] s of
        Some x \<Rightarrow> Some x
      | None \<Rightarrow>
          (case first_token [''embed/''] s of
             Some x \<Rightarrow> Some x
           | None \<Rightarrow>
               (case first_token [''watch?v=''] s of
                  Some x \<Rightarrow> Some x
                | None \<Rightarrow> bare_id s)))"
  unfolding extract_video_id_def patterns_def
  by (simp add: re_search_rule1 re_search_rule2 re_search_rule3 re_search_rule4
           split: option.splits)

lemma extract_video_id_eq:
  "extract_video_id s =
     (case first_token [''v='', ''/''] s of Some x \<Rightarrow> Some x | None \<Rightarrow> bare_id s)"
  using rule1_subsumes [of s] by (simp add: extract_video_id_rules split: option.splits)

lemma bare_id_Some: "bare_id s = Some x \<Longrightarrow> id_token x"
  by (auto simp: bare_id_def split: if_splits)

lemma extract_video_id_token: "extract_video_id s = Some x \<Longrightarrow> id_token x"
  using first_token_Some [of "[''v='', ''/'']" s x] bare_id_Some [of s x]
  by (auto simp: extract_video_id_eq split: option.splits)

lemma has_qualifying_separator_ex:
  "has_qualifying_separator s \<longleftrightarrow>
     (\<exists>pre sep x rest. (sep = ''v='' \<or> sep = ''/'') \<and> s = pre @ sep @ x @ rest \<and> id_token x)"
  using first_token_None_iff [of "[''v='', ''/'']" s]
  by (simp add: has_qualifying_separator_iff)

lemma first_token_no_separator:
  "CHR ''/'' \<notin> set s \<Longrightarrow> CHR ''='' \<notin> set s \<Longrightarrow> first_token [''v='', ''/''] s = None"
proof (induction s)
  case Nil
  show ?case by simp
next
  case (Cons c cs)
  have "\<not> starts_with_token ''/'' (c # cs)"
    using Cons.prems by (auto simp: starts_with_token_def)
  moreover have "\<not> starts_with_token ''v='' (c # cs)"
    using Cons.prems by (cases cs) (auto simp: starts_with_token_def)
  ultimately show ?case using Cons by simp
qed

lemma id_token_no_separator:
  "id_token x \<Longrightarrow> CHR ''/'' \<notin> set x \<and> CHR ''='' \<notin> set x"
  using idchar_not_sep by (auto simp: id_token_def list_all_iff)

lemma bare_id_token: "id_token x \<Longrightarrow> bare_id x = Some x"
  by (simp add: bare_id_def id_token_def)

lemma watch_url:
  assumes "id_token x"
  shows "first_token [''v='', ''/''] (''https://www.youtube.com/watch?v='' @ x) = Some x"
  using assms
  by (simp add: starts_with_token_def id_token_def idchar_def in_range_def)

lemma short_url:
  assumes "id_token x"
  shows "first_token [''v='', ''/''] (''https://youtu.be/'' @ x) = Some x"
  using assms
  by (simp add: starts_with_token_def id_token_def idchar_def in_range_def)

section \<open>The resolver\<close>

lemma bare_id_iff:
  "bare_id s = Some x \<longleftrightarrow> id_token x \<and> (s = x \<or> s = x @ [newline])"
proof
  assume a: "bare_id s = Some x"
  then have x: "x = take 11 s" and t: "id_token (take 11 s)"
    and d: "drop 11 s = [] \<or> drop 11 s = [newline]"
    by (auto simp: bare_id_def split: if_splits)
  have "s = take 11 s @ drop 11 s" by (simp only: append_take_drop_id)
  with d have "s = take 11 s \<or> s = take 11 s @ [newline]" by (metis append_Nil2)
  with x t show "id_token x \<and> (s = x \<or> s = x @ [newline])" by simp
next
  assume "id_token x \<and> (s = x \<or> s = x @ [newline])"
  then show "bare_id s = Some x" by (auto simp: bare_id_def id_token_def)
qed

text \<open>
  Claim C1, as amended. For every input, \<open>extract_video_id\<close> tries four rules in a fixed
  order and returns the token the first of them finds, never that of a later rule when
  an earlier one finds one, and \<open>None\<close> when none does. Rule 1 finds the token after the
  leftmost \<open>v=\<close> or \<open>/\<close> that has a token of 11 characters of the alphabet right after
  it, rule 2 the same for \<open>embed/\<close>, rule 3 the same for \<open>watch?v=\<close>; rule 4 finds the
  input when it is such a token, and the input without its last character when it is
  such a token followed by one newline. These are what \<open>re.search\<close> finds with the four
  patterns, and group 1 of each match is the token. As the claim was stated, with the
  entire input as the only result of rule 4, it fails on an ID followed by a newline.
\<close>

theorem extract_video_id_rule_order:
  "re_search rule1 url = map_option (\<lambda>x. Match (Some x)) (first_token [''v='', ''/''] url)
   \<and> re_search rule2 url = map_option (\<lambda>x. Match (Some x)) (first_token [''embed/''] url)
   \<and> re_search rule3 url = map_option (\<lambda>x. Match (Some x)) (first_token [''watch?v=''] url)
   \<and> re_search rule4 url = map_option (\<lambda>x. Match (Some x)) (bare_id url)
   \<and> extract_video_id url =
       (case first_token [''v='', ''/''] url of
          Some x \<Rightarrow> Some x
        | None \<Rightarrow>
            (case first_token [''embed/''] url of
               Some x \<Rightarrow> Some x
             | None \<Rightarrow>
                 (case first_token [''watch?v=''] url of
                    Some x \<Rightarrow> Some x
                  | None \<Rightarrow> bare_id url)))
   \<and> (\<forall>seps x. first_token seps url = Some x \<longrightarrow>
         (\<exists>pre sep rest. sep \<in> set seps \<and> url = pre @ sep @ x @ rest
            \<and> length x = 11 \<and> list_all idchar x))
   \<and> (\<forall>seps. first_token seps url = None \<longleftrightarrow>
         \<not> (\<exists>pre sep x rest. sep \<in> set seps \<and> url = pre @ sep @ x @ rest
               \<and> length x = 11 \<and> list_all idchar x))
   \<and> (\<forall>x. bare_id url = Some x \<longleftrightarrow>
         length x = 11 \<and> list_all idchar x \<and> (url = x \<or> url = x @ [newline]))
   \<and> (\<forall>x. extract_video_id url = Some x \<longrightarrow> length x = 11 \<and> list_all idchar x)"
proof (intro conjI allI impI)
  show "re_search rule1 url = map_option (\<lambda>x. Match (Some x)) (first_token [''v='', ''/''] url)"
    by (rule re_search_rule1)
  show "re_search rule2 url = map_option (\<lambda>x. Match (Some x)) (first_token [''embed/''] url)"
    by (rule re_search_rule2)
  show "re_search rule3 url = map_option (\<lambda>x. Match (Some x)) (first_token [''watch?v=''] url)"
    by (rule re_search_rule3)
  show "re_search rule4 url = map_option (\<lambda>x. Match (Some x)) (bare_id url)"
    by (rule re_search_rule4)
  show "extract_video_id url =
       (case first_token [''v='', ''/''] url of
          Some x \<Rightarrow> Some x
        | None \<Rightarrow>
            (case first_token [''embed/''] url of
               Some x \<Rightarrow> Some x
             | None \<Rightarrow>
                 (case first_token [''watch?v=''] url of
                    Some x \<Rightarrow> Some x
                  | None \<Rightarrow> bare_id url)))"
    by (rule extract_video_id_rules)
next
  fix seps x
  assume "first_token seps url = Some x"
  from first_token_Some [OF this]
  show "\<exists>pre sep rest. sep \<in> set seps \<and> url = pre @ sep @ x @ rest
          \<and> length x = 11 \<and> list_all idchar x"
    by (simp only: id_token_def)
next
  fix seps
  show "first_token seps url = None \<longleftrightarrow>
         \<not> (\<exists>pre sep x rest. sep \<in> set seps \<and> url = pre @ sep @ x @ rest
               \<and> length x = 11 \<and> list_all idchar x)"
    using first_token_None_iff [of seps url] by (simp only: id_token_def)
next
  fix x
  show "bare_id url = Some x \<longleftrightarrow>
         length x = 11 \<and> list_all idchar x \<and> (url = x \<or> url = x @ [newline])"
    using bare_id_iff [of url x] by (simp only: id_token_def conj_assoc)
next
  fix x
  assume "extract_video_id url = Some x"
  then have "id_token x" by (rule extract_video_id_token)
  then show "length x = 11" and "list_all idchar x" by (simp_all add: id_token_def)
qed

theorem extract_video_id_rule_order_witness:
  "re_search rule1 ''/aaaaaaaaaaa/embed/bbbbbbbbbbb'' = Some (Match (Some ''aaaaaaaaaaa''))
   \<and> re_search rule2 ''/aaaaaaaaaaa/embed/bbbbbbbbbbb'' = Some (Match (Some ''bbbbbbbbbbb''))
   \<and> extract_video_id ''/aaaaaaaaaaa/embed/bbbbbbbbbbb'' = Some ''aaaaaaaaaaa''
   \<and> length ''aaaaaaaaaaa'' = 11 \<and> list_all idchar ''aaaaaaaaaaa''"
proof -
  note t = extract_video_id_rule_order [of "''/aaaaaaaaaaa/embed/bbbbbbbbbbb''"]
  have f1: "first_token [''v='', ''/''] ''/aaaaaaaaaaa/embed/bbbbbbbbbbb'' = Some ''aaaaaaaaaaa''"
    by (simp add: starts_with_token_def id_token_def idchar_def in_range_def)
  have f2: "first_token [''embed/''] ''/aaaaaaaaaaa/embed/bbbbbbbbbbb'' = Some ''bbbbbbbbbbb''"
    by (simp add: starts_with_token_def id_token_def idchar_def in_range_def)
  have 1: "re_search rule1 ''/aaaaaaaaaaa/embed/bbbbbbbbbbb'' = Some (Match (Some ''aaaaaaaaaaa''))"
    using t [THEN conjunct1] by (simp only: f1 option.map)
  have 2: "re_search rule2 ''/aaaaaaaaaaa/embed/bbbbbbbbbbb'' = Some (Match (Some ''bbbbbbbbbbb''))"
    using t [THEN conjunct2, THEN conjunct1] by (simp only: f2 option.map)
  have 3: "extract_video_id ''/aaaaaaaaaaa/embed/bbbbbbbbbbb'' = Some ''aaaaaaaaaaa''"
    using t [THEN conjunct2, THEN conjunct2, THEN conjunct2, THEN conjunct2, THEN conjunct1]
    by (simp only: f1 option.case)
  have 4: "length ''aaaaaaaaaaa'' = 11 \<and> list_all idchar ''aaaaaaaaaaa''"
    using t [THEN conjunct2, THEN conjunct2, THEN conjunct2, THEN conjunct2, THEN conjunct2,
             THEN conjunct2, THEN conjunct2, THEN conjunct2, rule_format, OF 3] .
  from 1 2 3 4 show ?thesis by (simp only: simp_thms)
qed

text \<open>
  The claim C1 as it was stated fails here: the first three patterns do not match, the
  input has 12 characters and so is no bare ID of 11, yet the fourth pattern matches
  and what is returned is not the entire input.
\<close>

theorem extract_video_id_group_not_entire_input:
  "re_search rule1 (''dQw4w9WgXcQ'' @ [newline]) = None
   \<and> re_search rule2 (''dQw4w9WgXcQ'' @ [newline]) = None
   \<and> re_search rule3 (''dQw4w9WgXcQ'' @ [newline]) = None
   \<and> length (''dQw4w9WgXcQ'' @ [newline]) = 12
   \<and> re_search rule4 (''dQw4w9WgXcQ'' @ [newline]) = Some (Match (Some ''dQw4w9WgXcQ''))
   \<and> extract_video_id (''dQw4w9WgXcQ'' @ [newline]) = Some ''dQw4w9WgXcQ''
   \<and> ''dQw4w9WgXcQ'' \<noteq> ''dQw4w9WgXcQ'' @ [newline]"
proof -
  let ?s = "''dQw4w9WgXcQ'' @ [newline]"
  have n: "CHR ''/'' \<notin> set ?s" "CHR ''='' \<notin> set ?s" by (simp_all add: newline_def)
  have f1: "first_token [''v='', ''/''] ?s = None"
    using n by (rule first_token_no_separator)
  have f2: "first_token [''embed/''] ?s = None" and f3: "first_token [''watch?v=''] ?s = None"
    using rule1_subsumes [OF f1] by simp_all
  have b: "bare_id ?s = Some ''dQw4w9WgXcQ''"
    by (simp add: bare_id_def id_token_def idchar_def in_range_def)
  have 1: "re_search rule1 ?s = None" by (simp only: re_search_rule1 f1 option.map)
  have 2: "re_search rule2 ?s = None" by (simp only: re_search_rule2 f2 option.map)
  have 3: "re_search rule3 ?s = None" by (simp only: re_search_rule3 f3 option.map)
  have 4: "re_search rule4 ?s = Some (Match (Some ''dQw4w9WgXcQ''))"
    by (simp only: re_search_rule4 b option.map)
  have 5: "extract_video_id ?s = Some ''dQw4w9WgXcQ''"
    by (simp only: extract_video_id_eq f1 b option.case)
  have 6: "length ?s = 12" by simp
  have 7: "''dQw4w9WgXcQ'' \<noteq> ?s" by simp
  from 1 2 3 4 5 6 7 show ?thesis by (simp only: simp_thms)
qed

text \<open>
  Claim C5. For every token \<open>x\<close> of 11 characters of the alphabet \<open>[0-9A-Za-z_-]\<close>,
  \<open>extract_video_id\<close> returns \<open>x\<close> on \<open>https://www.youtube.com/watch?v=\<close> followed by \<open>x\<close>
  and on \<open>https://youtu.be/\<close> followed by \<open>x\<close>.
\<close>

theorem extract_video_id_watch_and_short_url:
  assumes "length x = 11" and "list_all idchar x"
  shows "extract_video_id (''https://www.youtube.com/watch?v='' @ x) = Some x
         \<and> extract_video_id (''https://youtu.be/'' @ x) = Some x"
proof -
  have t: "id_token x" using assms by (simp add: id_token_def)
  have "extract_video_id (''https://www.youtube.com/watch?v='' @ x) = Some x"
    by (simp only: extract_video_id_eq watch_url [OF t] option.case)
  moreover have "extract_video_id (''https://youtu.be/'' @ x) = Some x"
    by (simp only: extract_video_id_eq short_url [OF t] option.case)
  ultimately show ?thesis by simp
qed

theorem extract_video_id_watch_and_short_url_witness:
  "length ''dQw4w9WgXcQ'' = 11 \<and> list_all idchar ''dQw4w9WgXcQ''
   \<and> extract_video_id ''https://www.youtube.com/watch?v=dQw4w9WgXcQ'' = Some ''dQw4w9WgXcQ''
   \<and> extract_video_id ''https://youtu.be/dQw4w9WgXcQ'' = Some ''dQw4w9WgXcQ''"
proof -
  have l: "length ''dQw4w9WgXcQ'' = 11" by simp
  have a: "list_all idchar ''dQw4w9WgXcQ''" by (simp add: idchar_def in_range_def)
  from extract_video_id_watch_and_short_url [OF l a] l a show ?thesis by simp
qed

text \<open>
  Claim C6. On a string of exactly 11 characters of the alphabet \<open>[0-9A-Za-z_-]\<close>,
  \<open>extract_video_id\<close> returns the string unchanged.
\<close>

theorem extract_video_id_bare_id:
  assumes "length x = 11" and "list_all idchar x"
  shows "extract_video_id x = Some x"
proof -
  have t: "id_token x" using assms by (simp add: id_token_def)
  then have "first_token [''v='', ''/''] x = None"
    using id_token_no_separator first_token_no_separator by blast
  with t show ?thesis by (simp add: extract_video_id_eq bare_id_token)
qed

theorem extract_video_id_bare_id_witness:
  "length ''dQw4w9WgXcQ'' = 11 \<and> list_all idchar ''dQw4w9WgXcQ''
   \<and> extract_video_id ''dQw4w9WgXcQ'' = Some ''dQw4w9WgXcQ''"
proof -
  have l: "length ''dQw4w9WgXcQ'' = 11" by simp
  have a: "list_all idchar ''dQw4w9WgXcQ''" by (simp add: idchar_def in_range_def)
  from extract_video_id_bare_id [OF l a] l a show ?thesis by simp
qed

lemma bare_id_None:
  assumes "length s \<noteq> 11" and "\<not> (\<exists>x. id_token x \<and> s = x @ [newline])"
  shows "bare_id s = None"
proof (rule ccontr)
  assume "bare_id s \<noteq> None"
  then have t: "id_token (take 11 s)" and d: "drop 11 s = [] \<or> drop 11 s = [newline]"
    by (auto simp: bare_id_def split: if_splits)
  from d show False
  proof
    assume "drop 11 s = []"
    with t assms(1) show False by (auto simp: id_token_def)
  next
    assume "drop 11 s = [newline]"
    then have "s = take 11 s @ [newline]" by (metis append_take_drop_id)
    with t assms(2) show False by blast
  qed
qed

text \<open>
  Claim C7, as amended. \<open>extract_video_id\<close> returns \<open>None\<close> on the empty string, and on
  every string whose length is not 11, that has no qualifying separator (no \<open>/\<close> or \<open>v=\<close>
  with a token of 11 characters of the alphabet right after it), and that is not such a
  token followed by one newline; and it returns \<open>None\<close> whenever none of the four
  patterns matches. As the claim was stated, without the exception for the newline, it
  fails: \<open>$\<close> also matches just before a newline that ends the string, so on an ID
  followed by a newline (12 characters, no separator) the fourth pattern matches and the
  ID is returned.
\<close>

theorem extract_video_id_not_found:
  "extract_video_id [] = None
   \<and> (length s \<noteq> 11 \<and> \<not> has_qualifying_separator s
        \<and> \<not> (\<exists>x. length x = 11 \<and> list_all idchar x \<and> s = x @ [newline])
        \<longrightarrow> extract_video_id s = None)
   \<and> (re_search rule1 s = None \<and> re_search rule2 s = None \<and> re_search rule3 s = None
        \<and> re_search rule4 s = None \<longrightarrow> extract_video_id s = None)"
proof -
  have 1: "extract_video_id [] = None"
    by (simp add: extract_video_id_eq bare_id_def id_token_def)
  have 2: "extract_video_id s = None"
    if "length s \<noteq> 11" "\<not> has_qualifying_separator s"
       "\<not> (\<exists>x. length x = 11 \<and> list_all idchar x \<and> s = x @ [newline])"
  proof -
    from that(3) have "\<not> (\<exists>x. id_token x \<and> s = x @ [newline])" by (simp add: id_token_def)
    with that(1) have "bare_id s = None" by (rule bare_id_None)
    moreover from that(2) have "first_token [''v='', ''/''] s = None"
      by (simp add: has_qualifying_separator_iff)
    ultimately show ?thesis by (simp add: extract_video_id_eq)
  qed
  have 3: "extract_video_id s = None"
    if "re_search rule1 s = None \<and> re_search rule2 s = None \<and> re_search rule3 s = None
        \<and> re_search rule4 s = None"
    using that by (simp add: extract_video_id_def patterns_def)
  from 1 2 3 show ?thesis by blast
qed

theorem extract_video_id_not_found_witness:
  "length ''not-a-url'' \<noteq> 11 \<and> \<not> has_qualifying_separator ''not-a-url''
   \<and> \<not> (\<exists>x. length x = 11 \<and> list_all idchar x \<and> ''not-a-url'' = x @ [newline])
   \<and> extract_video_id ''not-a-url'' = None \<and> extract_video_id [] = None"
proof -
  have l: "length ''not-a-url'' \<noteq> 11" by simp
  have q: "\<not> has_qualifying_separator ''not-a-url''"
    by (simp add: starts_with_token_def id_token_def)
  have n: "\<not> (\<exists>x. length x = 11 \<and> list_all idchar x \<and> ''not-a-url'' = x @ [newline])"
    by (auto simp: newline_def)
  from extract_video_id_not_found [of "''not-a-url''"] l q n show ?thesis by blast
qed

theorem extract_video_id_trailing_newline:
  "length (''dQw4w9WgXcQ'' @ [newline]) \<noteq> 11
   \<and> \<not> has_qualifying_separator (''dQw4w9WgXcQ'' @ [newline])
   \<and> extract_video_id (''dQw4w9WgXcQ'' @ [newline]) = Some ''dQw4w9WgXcQ''"
proof -
  have q: "\<not> has_qualifying_separator (''dQw4w9WgXcQ'' @ [newline])"
    by (simp add: starts_with_token_def id_token_def newline_def)
  then have "first_token [''v='', ''/''] (''dQw4w9WgXcQ'' @ [newline]) = None"
    by (simp only: has_qualifying_separator_iff) simp
  moreover have "bare_id (''dQw4w9WgXcQ'' @ [newline]) = Some ''dQw4w9WgXcQ''"
    by (simp add: bare_id_def id_token_def idchar_def in_range_def)
  ultimately have "extract_video_id (''dQw4w9WgXcQ'' @ [newline]) = Some ''dQw4w9WgXcQ''"
    by (simp only: extract_video_id_eq option.case)
  with q show ?thesis by simp
qed

section \<open>The fetcher\<close>

lemma append_comments_Inr:
  "append_comments items acc = Inr cs \<longleftrightarrow>
     (\<exists>ds. cs = acc @ ds \<and> map comment_of_item items = map Inr ds)"
proof (induction items arbitrary: acc)
  case Nil
  show ?case by auto
next
  case (Cons item items)
  show ?case
  proof (cases "comment_of_item item")
    case (Inl e)
    then show ?thesis by (auto simp: map_eq_Cons_conv)
  next
    case (Inr c)
    then show ?thesis by (auto simp: Cons map_eq_Cons_conv)
  qed
qed

lemma append_comments_Inl:
  assumes "i < length items" and "comment_of_item (items ! i) = Inl e"
    and "\<forall>j<i. \<exists>c. comment_of_item (items ! j) = Inr c"
  shows "append_comments items acc = Inl e"
  using assms
proof (induction items arbitrary: acc i)
  case Nil
  then show ?case by simp
next
  case (Cons item items)
  show ?case
  proof (cases i)
    case 0
    with Cons.prems show ?thesis by simp
  next
    case (Suc k)
    with Cons.prems obtain c where c: "comment_of_item item = Inr c" by fastforce
    have "append_comments items (acc @ [c]) = Inl e"
    proof (rule Cons.IH)
      show "k < length items" using Cons.prems Suc by simp
      show "comment_of_item (items ! k) = Inl e" using Cons.prems Suc by simp
      show "\<forall>j<k. \<exists>c. comment_of_item (items ! j) = Inr c"
        using Cons.prems(3) Suc by (metis Suc_less_eq nth_Cons_Suc)
    qed
    with c show ?thesis by simp
  qed
qed

lemma fetch_comments_Inr:
  "fetch_comments upstream request = Inr comments \<longleftrightarrow>
     (\<exists>response items. upstream request = Inr response \<and> response_items response = Inr items
        \<and> map comment_of_item items = map Inr comments)"
  by (auto simp: fetch_comments_def bind_exn_def append_comments_Inr split: sum.splits)

lemma get_youtube_comments_sent:
  "fst (get_youtube_comments K upstream v n) = (if K = [] then [] else [list_request K v n])"
  by (simp add: get_youtube_comments_def Let_def split: sum.splits)

lemma get_youtube_comments_result:
  "K \<noteq> [] \<Longrightarrow> snd (get_youtube_comments K upstream v n) =
     (case fetch_comments upstream (list_request K v n) of
        Inr comments \<Rightarrow> Inr comments
      | Inl e \<Rightarrow> Inl (HTTPException 500 (''Error fetching comments: '' @ str_exn e)))"
  by (simp add: get_youtube_comments_def Let_def split: sum.splits)

lemma get_youtube_comments_status:
  "snd (get_youtube_comments K upstream v n) = Inl err \<Longrightarrow> status_code err = 500"
  by (auto simp: get_youtube_comments_def Let_def split: sum.splits if_splits)

text \<open>
  Claim C2. With no API key configured, \<open>get_youtube_comments\<close> returns exactly one
  record, with author "Demo User", likes 0, reply count 0 and the timestamp
  2024-01-01T00:00:00Z, whatever the video ID and \<open>max_results\<close> are (in particular
  for every \<open>max_results\<close> from 1 to 100), and sends nothing to the client library.
\<close>

theorem get_youtube_comments_no_key:
  "get_youtube_comments [] upstream video_id max_results =
     ([], Inr [PyDict [(''author'', PyStr ''Demo User''),
                       (''text'', PyStr ''This is a demo comment. Set YOUTUBE_API_KEY environment variable to fetch real comments.''),
                       (''likes'', PyInt 0),
                       (''published_at'', PyStr ''2024-01-01T00:00:00Z''),
                       (''reply_count'', PyInt 0)]])"
  by (simp add: get_youtube_comments_def demo_comment_def)

theorem get_youtube_comments_no_key_witness:
  "snd (get_youtube_comments [] quota_exceeded ''dQw4w9WgXcQ'' 1)
     = snd (get_youtube_comments [] second_item_malformed ''!!!!!!!!!!!'' 100)
   \<and> (\<exists>c. snd (get_youtube_comments [] quota_exceeded ''dQw4w9WgXcQ'' 1) = Inr [c]
          \<and> getitem c ''author'' = Inr (PyStr ''Demo User'')
          \<and> getitem c ''likes'' = Inr (PyInt 0)
          \<and> getitem c ''reply_count'' = Inr (PyInt 0)
          \<and> getitem c ''published_at'' = Inr (PyStr ''2024-01-01T00:00:00Z''))"
  using get_youtube_comments_no_key [of quota_exceeded "''dQw4w9WgXcQ''" 1]
        get_youtube_comments_no_key [of second_item_malformed "''!!!!!!!!!!!''" 100]
  by simp



text \<open>
  Claim C4. With an API key configured, \<open>get_youtube_comments\<close> sends exactly one request
  (no retry), and every exception of the exchange makes it fail with the one error of
  status 500 whose message embeds the text of the exception: an exception the client
  library raises, one raised when the items are taken from the answer, and one raised
  at an item after earlier items were mapped. A list is returned only when the answer
  arrived and every item of it was mapped, and it is the list of all of them: the fetch
  succeeds in full or fails in full.
\<close>

theorem get_youtube_comments_failure:
  assumes "YOUTUBE_API_KEY \<noteq> []"
  shows
    "fst (get_youtube_comments YOUTUBE_API_KEY upstream video_id max_results)
       = [list_request YOUTUBE_API_KEY video_id max_results]
     \<and> (\<forall>e. upstream (list_request YOUTUBE_API_KEY video_id max_results) = Inl e \<longrightarrow>
           snd (get_youtube_comments YOUTUBE_API_KEY upstream video_id max_results)
             = Inl (HTTPException 500 (''Error fetching comments: '' @ str_exn e)))
     \<and> (\<forall>response e.
           upstream (list_request YOUTUBE_API_KEY video_id max_results) = Inr response
           \<and> response_items response = Inl e \<longrightarrow>
           snd (get_youtube_comments YOUTUBE_API_KEY upstream video_id max_results)
             = Inl (HTTPException 500 (''Error fetching comments: '' @ str_exn e)))
     \<and> (\<forall>response items i e.
           upstream (list_request YOUTUBE_API_KEY video_id max_results) = Inr response
           \<and> response_items response = Inr items
           \<and> i < length items \<and> comment_of_item (items ! i) = Inl e
           \<and> (\<forall>j<i. \<exists>c. comment_of_item (items ! j) = Inr c) \<longrightarrow>
           snd (get_youtube_comments YOUTUBE_API_KEY upstream video_id max_results)
             = Inl (HTTPException 500 (''Error fetching comments: '' @ str_exn e)))
     \<and> (\<forall>comments.
           snd (get_youtube_comments YOUTUBE_API_KEY upstream video_id max_results) = Inr comments
           \<longrightarrow> (\<exists>response items.
                  upstream (list_request YOUTUBE_API_KEY video_id max_results) = Inr response
                  \<and> response_items response = Inr items
                  \<and> map comment_of_item items = map Inr comments))
     \<and> (\<forall>err.
           snd (get_youtube_comments YOUTUBE_API_KEY upstream video_id max_results) = Inl err
           \<longrightarrow> status_code err = 500)"
proof -
  let ?req = "list_request YOUTUBE_API_KEY video_id max_results"
  let ?R = "get_youtube_comments YOUTUBE_API_KEY upstream video_id max_results"
  let ?fail = "\<lambda>e. Inl (HTTPException 500 (''Error fetching comments: '' @ str_exn e))"
  note res = get_youtube_comments_result [OF assms, of upstream video_id max_results]
  have 1: "fst ?R = [?req]"
    using assms by (simp add: get_youtube_comments_sent)
  have 2: "snd ?R = ?fail e" if "upstream ?req = Inl e" for e
    using that by (simp add: res fetch_comments_def bind_exn_def)
  have 3: "snd ?R = ?fail e" if "upstream ?req = Inr response" "response_items response = Inl e"
    for response e
    using that by (simp add: res fetch_comments_def bind_exn_def)
  have 4: "snd ?R = ?fail e"
    if "upstream ?req = Inr response" "response_items response = Inr items"
       "i < length items" "comment_of_item (items ! i) = Inl e"
       "\<forall>j<i. \<exists>c. comment_of_item (items ! j) = Inr c"
    for response items i e
  proof -
    have "append_comments items [] = Inl e"
      using that(3-5) by (rule append_comments_Inl)
    with that(1,2) show ?thesis by (simp add: res fetch_comments_def bind_exn_def)
  qed
  have 5: "\<exists>response items. upstream ?req = Inr response \<and> response_items response = Inr items
             \<and> map comment_of_item items = map Inr comments"
    if "snd ?R = Inr comments" for comments
  proof -
    from that have "fetch_comments upstream ?req = Inr comments"
      by (simp add: res split: sum.splits)
    then show ?thesis by (simp only: fetch_comments_Inr)
  qed
  have 6: "status_code err = 500" if "snd ?R = Inl err" for err
    using that by (rule get_youtube_comments_status)
  show ?thesis
  proof (intro conjI allI impI)
    show "fst ?R = [?req]" by (rule 1)
  next
    fix e assume "upstream ?req = Inl e"
    then show "snd ?R = ?fail e" by (rule 2)
  next
    fix response e
    assume "upstream ?req = Inr response \<and> response_items response = Inl e"
    then show "snd ?R = ?fail e" using 3 by blast
  next
    fix response items i e
    assume "upstream ?req = Inr response \<and> response_items response = Inr items
            \<and> i < length items \<and> comment_of_item (items ! i) = Inl e
            \<and> (\<forall>j<i. \<exists>c. comment_of_item (items ! j) = Inr c)"
    then show "snd ?R = ?fail e" using 4 [of response items i e] by blast
  next
    fix comments assume "snd ?R = Inr comments"
    then show "\<exists>response items. upstream ?req = Inr response
                 \<and> response_items response = Inr items
                 \<and> map comment_of_item items = map Inr comments" by (rule 5)
  next
    fix err assume "snd ?R = Inl err"
    then show "status_code err = 500" by (rule 6)
  qed
qed

lemma comment_of_thread_item:
  "comment_of_item thread_item =
     Inr (PyDict [(''author'', PyStr ''Ann''), (''text'', PyStr ''Nice''), (''likes'', PyInt 3),
                  (''published_at'', PyStr ''2024-05-01T12:00:00Z''), (''reply_count'', PyInt 2)])"
  by (simp add: comment_of_item_def thread_item_def bind_exn_def)

lemma comment_of_empty_item: "comment_of_item (PyDict []) = Inl (KeyError ''snippet'')"
  by (simp add: comment_of_item_def bind_exn_def)

theorem get_youtube_comments_failure_witness:
  "''key'' \<noteq> []
   \<and> get_youtube_comments ''key'' quota_exceeded ''dQw4w9WgXcQ'' 50
       = ([list_request ''key'' ''dQw4w9WgXcQ'' 50],
          Inl (HTTPException 500 ''Error fetching comments: quotaExceeded''))
   \<and> comment_of_item thread_item
       = Inr (PyDict [(''author'', PyStr ''Ann''), (''text'', PyStr ''Nice''), (''likes'', PyInt 3),
                      (''published_at'', PyStr ''2024-05-01T12:00:00Z''), (''reply_count'', PyInt 2)])
   \<and> get_youtube_comments ''key'' second_item_malformed ''dQw4w9WgXcQ'' 50
       = ([list_request ''key'' ''dQw4w9WgXcQ'' 50],
          Inl (HTTPException 500 (''Error fetching comments: '' @ quoted ''snippet'')))"
proof -
  let ?req = "list_request ''key'' ''dQw4w9WgXcQ'' 50"
  let ?resp = "PyDict [(''items'', PyList [thread_item, PyDict []])]"
  have k: "''key'' \<noteq> []" by simp
  note a = get_youtube_comments_failure [OF k, of quota_exceeded "''dQw4w9WgXcQ''" 50]
  note b = get_youtube_comments_failure [OF k, of second_item_malformed "''dQw4w9WgXcQ''" 50]
  have a1: "fst (get_youtube_comments ''key'' quota_exceeded ''dQw4w9WgXcQ'' 50) = [?req]"
    by (rule a [THEN conjunct1])
  have a2: "snd (get_youtube_comments ''key'' quota_exceeded ''dQw4w9WgXcQ'' 50)
              = Inl (HTTPException 500 (''Error fetching comments: '' @ str_exn (ClientError ''quotaExceeded'')))"
    by (rule a [THEN conjunct2, THEN conjunct1, rule_format]) (simp add: quota_exceeded_def)
  have b1: "fst (get_youtube_comments ''key'' second_item_malformed ''dQw4w9WgXcQ'' 50) = [?req]"
    by (rule b [THEN conjunct1])
  have b4: "snd (get_youtube_comments ''key'' second_item_malformed ''dQw4w9WgXcQ'' 50)
              = Inl (HTTPException 500 (''Error fetching comments: '' @ str_exn (KeyError ''snippet'')))"
  proof (rule b [THEN conjunct2, THEN conjunct2, THEN conjunct2, THEN conjunct1, rule_format,
                 of ?resp "[thread_item, PyDict []]" 1])
    have r: "second_item_malformed ?req = Inr ?resp"
      by (simp add: second_item_malformed_def)
    have i: "response_items ?resp = Inr [thread_item, PyDict []]"
      by (simp add: response_items_def bind_exn_def)
    have f: "comment_of_item ([thread_item, PyDict []] ! 1) = Inl (KeyError ''snippet'')"
      by (simp add: comment_of_empty_item)
    have g: "\<forall>j<1. \<exists>c. comment_of_item ([thread_item, PyDict []] ! j) = Inr c"
      by (simp add: comment_of_thread_item)
    from r i f g show "second_item_malformed ?req = Inr ?resp
        \<and> response_items ?resp = Inr [thread_item, PyDict []]
        \<and> 1 < length [thread_item, PyDict []]
        \<and> comment_of_item ([thread_item, PyDict []] ! 1) = Inl (KeyError ''snippet'')
        \<and> (\<forall>j<1. \<exists>c. comment_of_item ([thread_item, PyDict []] ! j) = Inr c)"
      by simp
  qed
  have 1: "get_youtube_comments ''key'' quota_exceeded ''dQw4w9WgXcQ'' 50
       = ([?req], Inl (HTTPException 500 ''Error fetching comments: quotaExceeded''))"
    using a1 a2 by (simp add: prod_eq_iff)
  have 2: "get_youtube_comments ''key'' second_item_malformed ''dQw4w9WgXcQ'' 50
       = ([?req], Inl (HTTPException 500 (''Error fetching comments: '' @ quoted ''snippet'')))"
    using b1 b4 by (simp add: prod_eq_iff)
  from k 1 2 comment_of_thread_item show ?thesis by (simp only: simp_thms)
qed

section \<open>The route handlers\<close>

lemma respond_cases:
  "respond video_id (sent, Inl err) = (sent, Inl err)"
  "respond video_id (sent, Inr comments) =
     (sent, Inr (PyDict [(''video_id'', PyStr video_id),
                         (''comment_count'', PyInt (int (length comments))),
                         (''comments'', PyList comments)]))"
  by (simp_all add: respond_def comments_body_def)

lemma respond_status:
  "snd (respond video_id (get_youtube_comments K upstream v n)) = Inl err \<Longrightarrow> status_code err = 500"
proof -
  assume a: "snd (respond video_id (get_youtube_comments K upstream v n)) = Inl err"
  obtain sent r where g: "get_youtube_comments K upstream v n = (sent, r)"
    by (cases "get_youtube_comments K upstream v n")
  with a have "r = Inl err" by (cases r) (simp_all add: respond_cases)
  with g have "snd (get_youtube_comments K upstream v n) = Inl err" by simp
  then show ?thesis by (rule get_youtube_comments_status)
qed

lemma get_comments_resolved:
  assumes "extract_video_id url = Some video_id"
  shows "get_comments K upstream url n = respond video_id (get_youtube_comments K upstream video_id n)"
proof -
  from assms have "id_token video_id" by (rule extract_video_id_token)
  then have "video_id \<noteq> []" by (auto simp: id_token_def)
  with assms show ?thesis by (simp add: get_comments_def)
qed

lemma get_comments_400:
  "(\<exists>err. snd (get_comments K upstream url n) = Inl err \<and> status_code err = 400)
     \<longleftrightarrow> extract_video_id url = None"
proof (cases "extract_video_id url")
  case None
  then show ?thesis by (simp add: get_comments_def)
next
  case (Some video_id)
  have "status_code err \<noteq> 400" if "snd (get_comments K upstream url n) = Inl err" for err
    using that respond_status [of video_id K upstream video_id n err]
    by (simp add: get_comments_resolved [OF Some])
  with Some show ?thesis by auto
qed

text \<open>
  Claim C8, as amended. The handler of \<open>GET /comments\<close> fails with status 400 exactly
  when \<open>extract_video_id\<close> finds no ID in \<open>url\<close>. Otherwise it fetches the comments of
  the ID found: when the fetch returns a list, the handler returns the body with that
  ID as \<open>video_id\<close>, the list as \<open>comments\<close> and its length as \<open>comment_count\<close>; when
  the fetch fails, its error (status 500) is the handler's. With no API key and the URL
  \<open>https://www.youtube.com/watch?v=dQw4w9WgXcQ\<close> the body has \<open>video_id\<close>
  \<open>dQw4w9WgXcQ\<close> and \<open>comment_count\<close> 1. As the claim was stated, with a body
  whenever an ID is found, it fails when a key is configured and the client library
  raises.
\<close>

theorem get_comments_handler:
  "((\<exists>err. snd (get_comments YOUTUBE_API_KEY upstream url max_results) = Inl err
        \<and> status_code err = 400) \<longleftrightarrow> extract_video_id url = None)
   \<and> (\<forall>video_id sent comments.
         extract_video_id url = Some video_id
         \<and> get_youtube_comments YOUTUBE_API_KEY upstream video_id max_results = (sent, Inr comments)
         \<longrightarrow> get_comments YOUTUBE_API_KEY upstream url max_results
               = (sent, Inr (PyDict [(''video_id'', PyStr video_id),
                                     (''comment_count'', PyInt (int (length comments))),
                                     (''comments'', PyList comments)])))
   \<and> (\<forall>video_id sent err.
         extract_video_id url = Some video_id
         \<and> get_youtube_comments YOUTUBE_API_KEY upstream video_id max_results = (sent, Inl err)
         \<longrightarrow> get_comments YOUTUBE_API_KEY upstream url max_results = (sent, Inl err))
   \<and> get_comments [] upstream ''https://www.youtube.com/watch?v=dQw4w9WgXcQ'' max_results
       = ([], Inr (PyDict [(''video_id'', PyStr ''dQw4w9WgXcQ''),
                           (''comment_count'', PyInt 1),
                           (''comments'', PyList [demo_comment])]))"
proof (intro conjI allI impI)
  show "(\<exists>err. snd (get_comments YOUTUBE_API_KEY upstream url max_results) = Inl err
        \<and> status_code err = 400) \<longleftrightarrow> extract_video_id url = None"
    by (rule get_comments_400)
next
  fix video_id sent comments
  assume "extract_video_id url = Some video_id
         \<and> get_youtube_comments YOUTUBE_API_KEY upstream video_id max_results = (sent, Inr comments)"
  then show "get_comments YOUTUBE_API_KEY upstream url max_results
               = (sent, Inr (PyDict [(''video_id'', PyStr video_id),
                                     (''comment_count'', PyInt (int (length comments))),
                                     (''comments'', PyList comments)]))"
    by (simp add: get_comments_resolved respond_cases)
next
  fix video_id sent err
  assume "extract_video_id url = Some video_id
         \<and> get_youtube_comments YOUTUBE_API_KEY upstream video_id max_results = (sent, Inl err)"
  then show "get_comments YOUTUBE_API_KEY upstream url max_results = (sent, Inl err)"
    by (simp add: get_comments_resolved respond_cases)
next
  have l: "length ''dQw4w9WgXcQ'' = 11" by simp
  have a: "list_all idchar ''dQw4w9WgXcQ''" by (simp add: idchar_def in_range_def)
  have "id_token ''dQw4w9WgXcQ''" using l a by (simp only: id_token_def simp_thms)
  then have "first_token [''v='', ''/''] (''https://www.youtube.com/watch?v='' @ ''dQw4w9WgXcQ'') = Some ''dQw4w9WgXcQ''"
    by (rule watch_url)
  then have "extract_video_id (''https://www.youtube.com/watch?v='' @ ''dQw4w9WgXcQ'') = Some ''dQw4w9WgXcQ''"
    by (simp only: extract_video_id_eq option.case)
  then have e: "extract_video_id ''https://www.youtube.com/watch?v=dQw4w9WgXcQ'' = Some ''dQw4w9WgXcQ''"
    by simp
  show "get_comments [] upstream ''https://www.youtube.com/watch?v=dQw4w9WgXcQ'' max_results
       = ([], Inr (PyDict [(''video_id'', PyStr ''dQw4w9WgXcQ''),
                           (''comment_count'', PyInt 1),
                           (''comments'', PyList [demo_comment])]))"
    by (simp only: get_comments_resolved [OF e])
       (simp add: get_youtube_comments_def respond_cases)
qed


lemma quota_exceeded_fetch:
  "get_youtube_comments ''key'' quota_exceeded v n
     = ([list_request ''key'' v n],
        Inl (HTTPException 500 ''Error fetching comments: quotaExceeded''))"
  by (simp add: get_youtube_comments_def fetch_comments_def bind_exn_def quota_exceeded_def)

lemma extract_video_id_example: "extract_video_id ''dQw4w9WgXcQ'' = Some ''dQw4w9WgXcQ''"
proof -
  have "bare_id ''dQw4w9WgXcQ'' = Some ''dQw4w9WgXcQ''"
    by (simp add: bare_id_def id_token_def idchar_def in_range_def)
  moreover have "first_token [''v='', ''/''] ''dQw4w9WgXcQ'' = None"
    by (rule first_token_no_separator) simp_all
  ultimately show ?thesis by (simp only: extract_video_id_eq option.case)
qed

lemma extract_video_id_not_a_url: "extract_video_id ''not-a-url'' = None"
proof -
  have "bare_id ''not-a-url'' = None"
    by (simp add: bare_id_def id_token_def)
  moreover have "first_token [''v='', ''/''] ''not-a-url'' = None"
    by (rule first_token_no_separator) simp_all
  ultimately show ?thesis by (simp only: extract_video_id_eq option.case)
qed

theorem get_comments_handler_witness:
  "extract_video_id ''not-a-url'' = None
   \<and> (\<exists>err. snd (get_comments ''key'' quota_exceeded ''not-a-url'' 100) = Inl err
          \<and> status_code err = 400)
   \<and> extract_video_id ''dQw4w9WgXcQ'' = Some ''dQw4w9WgXcQ''
   \<and> get_youtube_comments [] quota_exceeded ''dQw4w9WgXcQ'' 100 = ([], Inr [demo_comment])
   \<and> get_comments [] quota_exceeded ''dQw4w9WgXcQ'' 100
       = ([], Inr (PyDict [(''video_id'', PyStr ''dQw4w9WgXcQ''),
                           (''comment_count'', PyInt 1),
                           (''comments'', PyList [demo_comment])]))"
proof -
  note a = get_comments_handler [of "''key''" quota_exceeded "''not-a-url''" 100]
  note b = get_comments_handler [of "[]" quota_exceeded "''dQw4w9WgXcQ''" 100]
  have 1: "\<exists>err. snd (get_comments ''key'' quota_exceeded ''not-a-url'' 100) = Inl err
          \<and> status_code err = 400"
    using a [THEN conjunct1] extract_video_id_not_a_url by (simp only: simp_thms)
  have f: "get_youtube_comments [] quota_exceeded ''dQw4w9WgXcQ'' 100 = ([], Inr [demo_comment])"
    by (simp add: get_youtube_comments_def)
  have "get_comments [] quota_exceeded ''dQw4w9WgXcQ'' 100
       = ([], Inr (PyDict [(''video_id'', PyStr ''dQw4w9WgXcQ''),
                           (''comment_count'', PyInt (int (length [demo_comment]))),
                           (''comments'', PyList [demo_comment])]))"
    by (rule b [THEN conjunct2, THEN conjunct1, rule_format])
       (simp only: extract_video_id_example f simp_thms)
  then have 2: "get_comments [] quota_exceeded ''dQw4w9WgXcQ'' 100
       = ([], Inr (PyDict [(''video_id'', PyStr ''dQw4w9WgXcQ''),
                           (''comment_count'', PyInt 1),
                           (''comments'', PyList [demo_comment])]))"
    by simp
  from 1 2 f extract_video_id_example extract_video_id_not_a_url show ?thesis
    by (simp only: simp_thms)
qed

text \<open>
  The claim C8 as it was stated fails here: an ID is found, the client library raises,
  and the handler returns no body but the error of status 500.
\<close>

theorem get_comments_fetch_error:
  "extract_video_id ''dQw4w9WgXcQ'' = Some ''dQw4w9WgXcQ''
   \<and> get_comments ''key'' quota_exceeded ''dQw4w9WgXcQ'' 100
       = ([list_request ''key'' ''dQw4w9WgXcQ'' 100],
          Inl (HTTPException 500 ''Error fetching comments: quotaExceeded''))"
  by (simp only: get_comments_resolved [OF extract_video_id_example] quota_exceeded_fetch
        respond_cases extract_video_id_example simp_thms)

lemma get_comments_by_id_400:
  "(\<exists>err. snd (get_comments_by_id K upstream video_id n) = Inl err \<and> status_code err = 400)
     \<longleftrightarrow> length video_id \<noteq> 11"
proof (cases "length video_id = 11")
  case True
  have "status_code err \<noteq> 400" if "snd (get_comments_by_id K upstream video_id n) = Inl err" for err
    using that True respond_status [of video_id K upstream video_id n err]
    by (simp add: get_comments_by_id_def)
  with True show ?thesis by auto
next
  case False
  then show ?thesis by (simp add: get_comments_by_id_def)
qed

text \<open>
  Claim C9, as amended. The handler of \<open>GET /video/{video_id}/comments\<close> fails with
  status 400 exactly when the length of \<open>video_id\<close> is not 11. Otherwise it fetches:
  when the fetch returns a list, the handler returns the body with \<open>video_id\<close>, the list
  as \<open>comments\<close> and its length as \<open>comment_count\<close>; when the fetch fails, its error
  (status 500) is the handler's. As the claim was stated, with a body whenever the
  length is 11, it fails when a key is configured and the client library raises.
\<close>

theorem get_comments_by_id_handler:
  "((\<exists>err. snd (get_comments_by_id YOUTUBE_API_KEY upstream video_id max_results) = Inl err
        \<and> status_code err = 400) \<longleftrightarrow> length video_id \<noteq> 11)
   \<and> (\<forall>sent comments.
         length video_id = 11
         \<and> get_youtube_comments YOUTUBE_API_KEY upstream video_id max_results = (sent, Inr comments)
         \<longrightarrow> get_comments_by_id YOUTUBE_API_KEY upstream video_id max_results
               = (sent, Inr (PyDict [(''video_id'', PyStr video_id),
                                     (''comment_count'', PyInt (int (length comments))),
                                     (''comments'', PyList comments)])))
   \<and> (\<forall>sent err.
         length video_id = 11
         \<and> get_youtube_comments YOUTUBE_API_KEY upstream video_id max_results = (sent, Inl err)
         \<longrightarrow> get_comments_by_id YOUTUBE_API_KEY upstream video_id max_results = (sent, Inl err))"
proof (intro conjI allI impI)
  show "(\<exists>err. snd (get_comments_by_id YOUTUBE_API_KEY upstream video_id max_results) = Inl err
        \<and> status_code err = 400) \<longleftrightarrow> length video_id \<noteq> 11"
    by (rule get_comments_by_id_400)
next
  fix sent comments
  assume "length video_id = 11
         \<and> get_youtube_comments YOUTUBE_API_KEY upstream video_id max_results = (sent, Inr comments)"
  then show "get_comments_by_id YOUTUBE_API_KEY upstream video_id max_results
               = (sent, Inr (PyDict [(''video_id'', PyStr video_id),
                                     (''comment_count'', PyInt (int (length comments))),
                                     (''comments'', PyList comments)]))"
    by (simp add: get_comments_by_id_def respond_cases)
next
  fix sent err
  assume "length video_id = 11
         \<and> get_youtube_comments YOUTUBE_API_KEY upstream video_id max_results = (sent, Inl err)"
  then show "get_comments_by_id YOUTUBE_API_KEY upstream video_id max_results = (sent, Inl err)"
    by (simp add: get_comments_by_id_def respond_cases)
qed

theorem get_comments_by_id_handler_witness:
  "length ''short'' \<noteq> 11
   \<and> (\<exists>err. snd (get_comments_by_id ''key'' quota_exceeded ''short'' 100) = Inl err
          \<and> status_code err = 400)
   \<and> length ''dQw4w9WgXcQ'' = 11
   \<and> get_youtube_comments [] quota_exceeded ''dQw4w9WgXcQ'' 100 = ([], Inr [demo_comment])
   \<and> get_comments_by_id [] quota_exceeded ''dQw4w9WgXcQ'' 100
       = ([], Inr (PyDict [(''video_id'', PyStr ''dQw4w9WgXcQ''),
                           (''comment_count'', PyInt 1),
                           (''comments'', PyList [demo_comment])]))"
proof -
  note a = get_comments_by_id_handler [of "''key''" quota_exceeded "''short''" 100]
  note b = get_comments_by_id_handler [of "[]" quota_exceeded "''dQw4w9WgXcQ''" 100]
  have s: "length ''short'' \<noteq> 11" by simp
  have l: "length ''dQw4w9WgXcQ'' = 11" by simp
  have 1: "\<exists>err. snd (get_comments_by_id ''key'' quota_exceeded ''short'' 100) = Inl err
          \<and> status_code err = 400"
    using a [THEN conjunct1] s by (simp only: simp_thms)
  have f: "get_youtube_comments [] quota_exceeded ''dQw4w9WgXcQ'' 100 = ([], Inr [demo_comment])"
    by (simp add: get_youtube_comments_def)
  have "get_comments_by_id [] quota_exceeded ''dQw4w9WgXcQ'' 100
       = ([], Inr (PyDict [(''video_id'', PyStr ''dQw4w9WgXcQ''),
                           (''comment_count'', PyInt (int (length [demo_comment]))),
                           (''comments'', PyList [demo_comment])]))"
    by (rule b [THEN conjunct2, THEN conjunct1, rule_format]) (simp only: l f simp_thms)
  then have 2: "get_comments_by_id [] quota_exceeded ''dQw4w9WgXcQ'' 100
       = ([], Inr (PyDict [(''video_id'', PyStr ''dQw4w9WgXcQ''),
                           (''comment_count'', PyInt 1),
                           (''comments'', PyList [demo_comment])]))"
    by simp
  from s l 1 2 f show ?thesis by (simp only: simp_thms)
qed

text \<open>
  The claim C9 as it was stated fails here: the length is 11, the client library raises,
  and the handler returns no body but the error of status 500.
\<close>

theorem get_comments_by_id_fetch_error:
  "length ''dQw4w9WgXcQ'' = 11
   \<and> get_comments_by_id ''key'' quota_exceeded ''dQw4w9WgXcQ'' 100
       = ([list_request ''key'' ''dQw4w9WgXcQ'' 100],
          Inl (HTTPException 500 ''Error fetching comments: quotaExceeded''))"
  by (simp add: get_comments_by_id_def quota_exceeded_fetch respond_cases)

text \<open>
  Claim C10. The check of \<open>GET /video/{video_id}/comments\<close> reads only the length of
  \<open>video_id\<close>: every string of exactly 11 characters passes it, whatever its
  characters, and is handed unchanged to \<open>get_youtube_comments\<close> and, when a key is
  configured, to the client library.
\<close>

theorem get_comments_by_id_length_only:
  assumes "length video_id = 11"
  shows "get_comments_by_id YOUTUBE_API_KEY upstream video_id max_results
           = respond video_id (get_youtube_comments YOUTUBE_API_KEY upstream video_id max_results)
         \<and> \<not> (\<exists>err. snd (get_comments_by_id YOUTUBE_API_KEY upstream video_id max_results) = Inl err
                  \<and> status_code err = 400)
         \<and> (YOUTUBE_API_KEY \<noteq> [] \<longrightarrow>
               map videoId (fst (get_comments_by_id YOUTUBE_API_KEY upstream video_id max_results))
                 = [video_id])"
proof (intro conjI impI)
  show r: "get_comments_by_id YOUTUBE_API_KEY upstream video_id max_results
           = respond video_id (get_youtube_comments YOUTUBE_API_KEY upstream video_id max_results)"
    using assms by (simp add: get_comments_by_id_def)
  show "\<not> (\<exists>err. snd (get_comments_by_id YOUTUBE_API_KEY upstream video_id max_results) = Inl err
                  \<and> status_code err = 400)"
    using assms by (simp only: get_comments_by_id_400 simp_thms)
  assume k: "YOUTUBE_API_KEY \<noteq> []"
  obtain sent res where g: "get_youtube_comments YOUTUBE_API_KEY upstream video_id max_results = (sent, res)"
    by (cases "get_youtube_comments YOUTUBE_API_KEY upstream video_id max_results")
  have "fst (get_youtube_comments YOUTUBE_API_KEY upstream video_id max_results)
          = [list_request YOUTUBE_API_KEY video_id max_results]"
    using k by (simp add: get_youtube_comments_sent)
  with g have "sent = [list_request YOUTUBE_API_KEY video_id max_results]" by simp
  with g show "map videoId (fst (get_comments_by_id YOUTUBE_API_KEY upstream video_id max_results))
                 = [video_id]"
    by (cases res) (simp_all add: r respond_cases list_request_def)
qed

theorem get_comments_by_id_length_only_witness:
  "length ''!!!!!!!!!!!'' = 11 \<and> \<not> list_all idchar ''!!!!!!!!!!!''
   \<and> get_comments_by_id ''key'' quota_exceeded ''!!!!!!!!!!!'' 100
       = respond ''!!!!!!!!!!!'' (get_youtube_comments ''key'' quota_exceeded ''!!!!!!!!!!!'' 100)
   \<and> map videoId (fst (get_comments_by_id ''key'' quota_exceeded ''!!!!!!!!!!!'' 100))
       = [''!!!!!!!!!!!'']"
proof -
  have l: "length ''!!!!!!!!!!!'' = 11" by simp
  have n: "\<not> list_all idchar ''!!!!!!!!!!!''" by (simp add: idchar_def in_range_def)
  have k: "''key'' \<noteq> []" by simp
  note t = get_comments_by_id_length_only [OF l, of "''key''" quota_exceeded 100]
  have 1: "get_comments_by_id ''key'' quota_exceeded ''!!!!!!!!!!!'' 100
       = respond ''!!!!!!!!!!!'' (get_youtube_comments ''key'' quota_exceeded ''!!!!!!!!!!!'' 100)"
    by (rule t [THEN conjunct1])
  have 2: "map videoId (fst (get_comments_by_id ''key'' quota_exceeded ''!!!!!!!!!!!'' 100))
       = [''!!!!!!!!!!!'']"
    by (rule t [THEN conjunct2, THEN conjunct2, rule_format]) (rule k)
  show ?thesis by (intro conjI) (rule l n 1 2)+
qed

end
